theory Spec2Isabelle
  imports Main
begin

section \<open>The rule cascade of \<^verbatim>\<open>pynini/lib/rule_cascade.py\<close>\<close>

text \<open>
  A rule cascade holds an opened archive of named transducers and an ordered list of
  rules; every rewrite operation pushes an input through the rules in order and reads
  strings off the resulting lattice. The class is a thin layer over the automaton
  library (\<^verbatim>\<open>pynini\<close>) and over \<^verbatim>\<open>pynini.lib.rewrite\<close>. Both are taken here as
  a record of operations, so that every statement about the class itself holds for any
  library; a concrete library, written after the words of the specification, follows
  in the second part.
\<close>

subsection \<open>Values and errors\<close>

text \<open>
  \<^verbatim>\<open>pynini.FstLike\<close> is the union of a Python string and an automaton.
\<close>

datatype 'f fstlike = Str string | Fst 'f

text \<open>
  The module raises its own \<^verbatim>\<open>Error\<close> with a message; whatever a library call raises
  passes through the methods unchanged.
\<close>

datatype 'e error = Error string | LibError 'e

text \<open>\<^verbatim>\<open>pynini.NO_STATE_ID\<close>.\<close>

definition NO_STATE_ID :: int where
  "NO_STATE_ID = - 1"

subsection \<open>The library the class calls\<close>

text \<open>
  One field per library operation the class calls, with the arguments the class
  passes: \<^verbatim>\<open>Fst.arcsort(sort_type)\<close>, \<^verbatim>\<open>rewrite.rewrite_lattice(string, rule, token_type)\<close>,
  \<^verbatim>\<open>pynini.accep(string, token_type)\<close>, \<^verbatim>\<open>pynini.intersect(lattice, ostring, compose_filter)\<close>
  run under a default token type (\<open>None\<close>: the ambient one), \<^verbatim>\<open>Fst.start()\<close>, and the
  five lattice readers of \<^verbatim>\<open>rewrite\<close>. An operation that can raise returns a sum.
\<close>

record ('f, 't, 'e) lib =
  arcsort :: "'f \<Rightarrow> string \<Rightarrow> 'f"
  rewrite_lattice :: "'f fstlike \<Rightarrow> 'f \<Rightarrow> 't option \<Rightarrow> 'e + 'f"
  accep :: "string \<Rightarrow> 't option \<Rightarrow> 'e + 'f"
  intersect :: "'f \<Rightarrow> 'f fstlike \<Rightarrow> string \<Rightarrow> 't option \<Rightarrow> 'e + 'f"
  start :: "'f \<Rightarrow> int"
  lattice_to_dfa :: "'f \<Rightarrow> bool \<Rightarrow> int \<Rightarrow> 'e + 'f"
  lattice_to_strings :: "'f \<Rightarrow> 't option \<Rightarrow> 'e + string list"
  lattice_to_nshortest :: "'f \<Rightarrow> int \<Rightarrow> 'e + 'f"
  lattice_to_top_string :: "'f \<Rightarrow> 't option \<Rightarrow> 'e + string"
  lattice_to_one_top_string :: "'f \<Rightarrow> 't option \<Rightarrow> 'e + string"

subsection \<open>The cascade\<close>

text \<open>
  Modelled from the spec: the archive reader \<^verbatim>\<open>pynini.Far\<close> is not among the sources.
  The specification gives it as \<^verbatim>\<open>resolve(handle, name) -> WeightedRelation | NotFound\<close>,
  read-only and opened once, so the opened archive is a finite map from names to
  automata: \<^verbatim>\<open>far.find(name)\<close> is whether the name is bound, and \<^verbatim>\<open>far.get_fst()\<close>
  right after a successful \<^verbatim>\<open>find\<close> is the automaton bound to it.
\<close>

type_synonym 'f far = "string \<rightharpoonup> 'f"

record 'f rule_cascade =
  far :: "'f far"
  rules :: "'f list"

text \<open>\<^verbatim>\<open>__init__\<close>: the archive is opened and the rule list starts empty.\<close>

definition init :: "'f far \<Rightarrow> 'f rule_cascade" where
  "init archive = \<lparr>far = archive, rules = []\<rparr>"

text \<open>
  The loop of \<^verbatim>\<open>set_rules\<close> over the names, on the rule list built so far. A raise
  leaves the list as it stands at that moment, so the loop returns the list beside
  the outcome.
\<close>

fun set_rules_loop ::
  "('f, 't, 'e) lib \<Rightarrow> 'f far \<Rightarrow> 'f list \<Rightarrow> string list \<Rightarrow> ('e error + unit) \<times> 'f list" where
  "set_rules_loop L archive rs [] = (Inr (), rs)"
| "set_rules_loop L archive rs (rule # rest) =
     (case archive rule of
        Some f \<Rightarrow> set_rules_loop L archive (rs @ [arcsort L f ''ilabel'']) rest
      | None \<Rightarrow> (Inl (Error (''Cannot find rule: '' @ rule)), rs))"

text \<open>\<^verbatim>\<open>set_rules\<close>: \<^verbatim>\<open>self.rules.clear()\<close>, then the loop.\<close>

definition set_rules ::
  "('f, 't, 'e) lib \<Rightarrow> 'f rule_cascade \<Rightarrow> string list \<Rightarrow> ('e error + unit) \<times> 'f rule_cascade" where
  "set_rules L c names =
     (case set_rules_loop L (far c) [] names of
        (outcome, rs) \<Rightarrow> (outcome, c\<lparr>rules := rs\<rparr>))"

text \<open>
  The loop of \<^verbatim>\<open>_rewrite_lattice\<close>: the variable \<^verbatim>\<open>lattice\<close> starts as the input
  (string or automaton) and is replaced by what \<^verbatim>\<open>rewrite.rewrite_lattice\<close> returns
  for each rule in turn.
\<close>

fun rewrite_loop ::
  "('f, 't, 'e) lib \<Rightarrow> 't option \<Rightarrow> 'f fstlike \<Rightarrow> 'f list \<Rightarrow> 'e error + 'f fstlike" where
  "rewrite_loop L token_type lattice [] = Inr lattice"
| "rewrite_loop L token_type lattice (rule # rest) =
     (case rewrite_lattice L lattice rule token_type of
        Inl e \<Rightarrow> Inl (LibError e)
      | Inr l \<Rightarrow> rewrite_loop L token_type (Fst l) rest)"

text \<open>
  \<^verbatim>\<open>_rewrite_lattice\<close>: the guard on the empty rule list, the loop, and the \<^verbatim>\<open>else\<close>
  of the loop (there is no \<^verbatim>\<open>break\<close>, so it always runs), which turns a value that is
  not an automaton into an acceptor.
\<close>

definition cascade_rewrite_lattice ::
  "('f, 't, 'e) lib \<Rightarrow> 'f rule_cascade \<Rightarrow> 'f fstlike \<Rightarrow> 't option \<Rightarrow> 'e error + 'f" where
  "cascade_rewrite_lattice L c string token_type =
     (if rules c = [] then Inl (Error ''No rules requested'')
      else case rewrite_loop L token_type string (rules c) of
             Inl e \<Rightarrow> Inl e
           | Inr (Fst f) \<Rightarrow> Inr f
           | Inr (Str s) \<Rightarrow>
               (case accep L s token_type of
                  Inl e \<Rightarrow> Inl (LibError e)
                | Inr f \<Rightarrow> Inr f))"

text \<open>A library call inside a method: its error passes through.\<close>

definition lift_lib :: "'e + 'a \<Rightarrow> 'e error + 'a" where
  "lift_lib r = (case r of Inl e \<Rightarrow> Inl (LibError e) | Inr v \<Rightarrow> Inr v)"

text \<open>Sequencing of two fallible steps, as consecutive statements of a method.\<close>

definition and_then :: "'x + 'a \<Rightarrow> ('a \<Rightarrow> 'x + 'b) \<Rightarrow> 'x + 'b" where
  "and_then r k = (case r of Inl e \<Rightarrow> Inl e | Inr v \<Rightarrow> k v)"

text \<open>
  \<^verbatim>\<open>matches\<close>. Both branches on \<^verbatim>\<open>output_token_type\<close> make the same call; the second
  one runs it under \<^verbatim>\<open>pynini.default_token_type(output_token_type)\<close>.
\<close>

definition matches ::
  "('f, 't, 'e) lib \<Rightarrow> 'f rule_cascade \<Rightarrow> 'f fstlike \<Rightarrow> 'f fstlike \<Rightarrow> 't option \<Rightarrow> 't option
     \<Rightarrow> 'e error + bool" where
  "matches L c istring ostring input_token_type output_token_type =
     and_then (cascade_rewrite_lattice L c istring input_token_type) (\<lambda>lattice.
     and_then (if output_token_type = None
               then lift_lib (intersect L lattice ostring ''sequence'' None)
               else lift_lib (intersect L lattice ostring ''sequence'' output_token_type)) (\<lambda>lattice.
     Inr (start L lattice \<noteq> NO_STATE_ID)))"

text \<open>\<^verbatim>\<open>rewrites\<close> (the bare name is a keyword of the prover).\<close>

definition cascade_rewrites ::
  "('f, 't, 'e) lib \<Rightarrow> 'f rule_cascade \<Rightarrow> 'f fstlike \<Rightarrow> 't option \<Rightarrow> 't option \<Rightarrow> int
     \<Rightarrow> 'e error + string list" where
  "cascade_rewrites L c string input_token_type output_token_type state_multiplier =
     and_then (cascade_rewrite_lattice L c string input_token_type) (\<lambda>lattice.
     and_then (lift_lib (lattice_to_dfa L lattice False state_multiplier)) (\<lambda>lattice.
     lift_lib (lattice_to_strings L lattice output_token_type)))"

definition top_rewrites ::
  "('f, 't, 'e) lib \<Rightarrow> 'f rule_cascade \<Rightarrow> 'f fstlike \<Rightarrow> int \<Rightarrow> 't option \<Rightarrow> 't option
     \<Rightarrow> 'e error + string list" where
  "top_rewrites L c string nshortest input_token_type output_token_type =
     and_then (cascade_rewrite_lattice L c string input_token_type) (\<lambda>lattice.
     and_then (lift_lib (lattice_to_nshortest L lattice nshortest)) (\<lambda>lattice.
     lift_lib (lattice_to_strings L lattice output_token_type)))"

definition top_rewrite ::
  "('f, 't, 'e) lib \<Rightarrow> 'f rule_cascade \<Rightarrow> 'f fstlike \<Rightarrow> 't option \<Rightarrow> 't option
     \<Rightarrow> 'e error + string" where
  "top_rewrite L c string input_token_type output_token_type =
     and_then (cascade_rewrite_lattice L c string input_token_type) (\<lambda>lattice.
     lift_lib (lattice_to_top_string L lattice output_token_type))"

definition one_top_rewrite ::
  "('f, 't, 'e) lib \<Rightarrow> 'f rule_cascade \<Rightarrow> 'f fstlike \<Rightarrow> 't option \<Rightarrow> 't option \<Rightarrow> int
     \<Rightarrow> 'e error + string" where
  "one_top_rewrite L c string input_token_type output_token_type state_multiplier =
     and_then (cascade_rewrite_lattice L c string input_token_type) (\<lambda>lattice.
     and_then (lift_lib (lattice_to_dfa L lattice True state_multiplier)) (\<lambda>lattice.
     lift_lib (lattice_to_one_top_string L lattice output_token_type)))"

definition optimal_rewrites ::
  "('f, 't, 'e) lib \<Rightarrow> 'f rule_cascade \<Rightarrow> 'f fstlike \<Rightarrow> 't option \<Rightarrow> 't option \<Rightarrow> int
     \<Rightarrow> 'e error + string list" where
  "optimal_rewrites L c string input_token_type output_token_type state_multiplier =
     and_then (cascade_rewrite_lattice L c string input_token_type) (\<lambda>lattice.
     and_then (lift_lib (lattice_to_dfa L lattice True state_multiplier)) (\<lambda>lattice.
     lift_lib (lattice_to_strings L lattice output_token_type)))"

subsection \<open>The specification's lattice builder\<close>

text \<open>
  The specification describes the lattice builder by a recurrence:
  \<^verbatim>\<open>lattice_i = compose(lattice_{i-1}, rules[i])\<close>, starting from the input, ``the result
  after the final rule is the returned lattice'', and ``if the final result is not
  already an automaton type, it is coerced into an acceptor automaton''. The three
  definitions below follow these words (one composition step, the sequence of
  lattices, the coercion), to be compared with the loop of the source.
\<close>

definition compose_step ::
  "('f, 't, 'e) lib \<Rightarrow> 't option \<Rightarrow> 'e error + 'f fstlike \<Rightarrow> 'f \<Rightarrow> 'e error + 'f fstlike" where
  "compose_step L token_type previous rule =
     and_then previous (\<lambda>lattice.
     and_then (lift_lib (rewrite_lattice L lattice rule token_type)) (\<lambda>l. Inr (Fst l)))"

fun lattice_seq ::
  "('f, 't, 'e) lib \<Rightarrow> 't option \<Rightarrow> 'f fstlike \<Rightarrow> 'f list \<Rightarrow> nat \<Rightarrow> 'e error + 'f fstlike" where
  "lattice_seq L token_type input rs 0 = Inr input"
| "lattice_seq L token_type input rs (Suc i) =
     compose_step L token_type (lattice_seq L token_type input rs i) (rs ! i)"

definition to_acceptor :: "('f, 't, 'e) lib \<Rightarrow> 't option \<Rightarrow> 'f fstlike \<Rightarrow> 'e error + 'f" where
  "to_acceptor L token_type lattice =
     (case lattice of Fst f \<Rightarrow> Inr f | Str s \<Rightarrow> lift_lib (accep L s token_type))"

section \<open>A library after the specification\<close>

text \<open>
  The automaton library and \<^verbatim>\<open>pynini.lib.rewrite\<close> are not among the sources. The
  definitions of this section follow the specification's description of them, on the
  simplest carrier that gives the description a meaning. A string is identified with
  its label sequence, so token types are passed as the class passes them and do not
  change a result. The warning that a determinization beyond its state bound must
  surface is a log line; no operation of the class returns it, and it is left out.
\<close>

text \<open>
  Modelled from the spec: a weighted relation is ``a function-like mapping from input
  strings to (output string, weight) pairs'', a lattice ``the weighted automaton
  representing all candidate outputs (with weights)''. An automaton with finitely many
  successful paths is the list of those paths, each with the string it reads, the
  string it writes and its weight. Weights are integers, added along a path; the
  lower weight is the better one.
\<close>

datatype path = Path (istring: string) (ostring: string) (weight: int)

type_synonym wfst = "path list"

text \<open>
  Modelled from the spec: the failures of the library: a compose failure, the
  ambiguity signal \<^verbatim>\<open>AmbiguousResultError\<close>, and the reading of a best string off a
  lattice with no path.
\<close>

datatype lib_error = CompositionFailure | AmbiguousResult | EmptyLattice

text \<open>
  Modelled from the spec: \<^verbatim>\<open>toAcceptor(string, tokenScheme)\<close>, the acceptor of one
  string, with the neutral weight.
\<close>

definition spec_accep :: "string \<Rightarrow> 't option \<Rightarrow> lib_error + wfst" where
  "spec_accep s token_type = Inr [Path s s 0]"

text \<open>
  Modelled from the spec: an input is ``either a raw string (to be converted to an
  acceptor under an optional token/encoding scheme) or an already-built automaton''.
\<close>

definition to_fst :: "wfst fstlike \<Rightarrow> 't option \<Rightarrow> wfst" where
  "to_fst x token_type = (case x of Str s \<Rightarrow> [Path s s 0] | Fst f \<Rightarrow> f)"

text \<open>
  Modelled from the spec: \<^verbatim>\<open>compose(a, b, filter)\<close> on weighted relations: a path of
  \<open>a\<close> followed by a path of \<open>b\<close> that reads what the first one writes, the weights
  added.
\<close>

definition compose_paths :: "wfst \<Rightarrow> wfst \<Rightarrow> wfst" where
  "compose_paths a b =
     concat (map (\<lambda>p. map (\<lambda>q. Path (istring p) (ostring q) (weight p + weight q))
                           (filter (\<lambda>q. istring q = ostring p) b)) a)"

text \<open>
  Modelled from the spec: one step of the lattice builder,
  \<^verbatim>\<open>lattice_i = compose(lattice_{i-1}, rules[i])\<close>, the result being ``a weighted
  automaton representing all candidate outputs (with weights)'', that is, an acceptor
  of the output strings. Where the rule accepts nothing of what comes in, the step
  fails: ``failures surface as resolver/compose failures'', and the properties are
  stated for ``inputs accepted by rule 1''.
\<close>

definition spec_rewrite_lattice :: "wfst fstlike \<Rightarrow> wfst \<Rightarrow> 't option \<Rightarrow> lib_error + wfst" where
  "spec_rewrite_lattice string rule token_type =
     (let lattice = compose_paths (to_fst string token_type) rule
      in if lattice = [] then Inl CompositionFailure
         else Inr (map (\<lambda>p. Path (ostring p) (ostring p) (weight p)) lattice))"

text \<open>
  Modelled from the spec: intersection of the lattice with the output acceptor; on
  acceptors it is composition.
\<close>

definition spec_intersect ::
  "wfst \<Rightarrow> wfst fstlike \<Rightarrow> string \<Rightarrow> 't option \<Rightarrow> lib_error + wfst" where
  "spec_intersect lattice ostr compose_filter token_type =
     Inr (compose_paths lattice (to_fst ostr token_type))"

text \<open>
  Modelled from the spec: an automaton ``has a reachable start state (non-empty
  language)''; without one, \<^verbatim>\<open>start()\<close> is \<^verbatim>\<open>NO_STATE_ID\<close>.
\<close>

definition spec_start :: "wfst \<Rightarrow> int" where
  "spec_start f = (if f = [] then NO_STATE_ID else 0)"

text \<open>
  Modelled from the spec: arc sorting is done ``for composition efficiency''; it
  leaves the relation as it is.
\<close>

definition spec_arcsort :: "wfst \<Rightarrow> string \<Rightarrow> wfst" where
  "spec_arcsort f sort_type = f"

text \<open>
  Modelled from the spec: the weight of an output string is the lowest weight of a
  path that writes it.
\<close>

definition paths_of :: "wfst \<Rightarrow> string \<Rightarrow> wfst" where
  "paths_of f s = filter (\<lambda>p. ostring p = s) f"

definition string_weight :: "wfst \<Rightarrow> string \<Rightarrow> int" where
  "string_weight f s = min_list (map weight (paths_of f s))"

text \<open>
  Modelled from the spec: the ``minimal weight'' of a lattice, the lowest weight of
  its paths.
\<close>

definition min_weight :: "wfst \<Rightarrow> int" where
  "min_weight f = min_list (map weight f)"

text \<open>
  Modelled from the spec: determinization ``merges duplicate-string paths'': one path
  for each distinct string, with the best weight of that string.
\<close>

definition determinize :: "wfst \<Rightarrow> wfst" where
  "determinize f = map (\<lambda>s. Path s s (string_weight f s)) (remdups (map ostring f))"

text \<open>
  Modelled from the spec: determinization is done ``bounding the resulting state count
  to \<^verbatim>\<open>maxStateRatio x originalStateCount\<close>; if the bound would be exceeded, the
  operation \<dots> still returns a best-effort result rather than failing hard'', a
  result that ``may be partial''. A list of paths does not fix how many states an
  automaton has, nor does the specification say which part of the result survives, so
  the three are taken as given: the state count of a lattice, the state count of its
  determinization, and the best-effort result for a lattice and a bound.
\<close>

record dfa_limits =
  num_states :: "wfst \<Rightarrow> nat"
  dfa_states :: "wfst \<Rightarrow> nat"
  best_effort :: "wfst \<Rightarrow> int \<Rightarrow> wfst"

text \<open>
  Modelled from the spec: the determinization of a lattice stays within the bound of a
  state multiplier: its state count, which is at least one (the start state), is at
  most the multiplier times the state count of the lattice.
\<close>

definition within_bound :: "dfa_limits \<Rightarrow> int \<Rightarrow> wfst \<Rightarrow> bool" where
  "within_bound D state_multiplier lattice =
     (int (max 1 (dfa_states D lattice)) \<le> state_multiplier * int (num_states D lattice))"

text \<open>
  Modelled from the spec: the determinization behind \<^verbatim>\<open>rewrites\<close> ``keeps all distinct
  output strings''; the one behind \<^verbatim>\<open>optimalRewrites\<close> and \<^verbatim>\<open>oneTopRewrite\<close> preserves
  ``all strings tied at the optimal (lowest) weight'' and no other. Beyond the state
  bound, what is read is the best-effort result.
\<close>

definition spec_lattice_to_dfa :: "dfa_limits \<Rightarrow> wfst \<Rightarrow> bool \<Rightarrow> int \<Rightarrow> lib_error + wfst" where
  "spec_lattice_to_dfa D lattice optimal_only state_multiplier =
     (let d = (if within_bound D state_multiplier lattice then determinize lattice
               else best_effort D lattice (state_multiplier * int (num_states D lattice)))
      in Inr (if optimal_only then filter (\<lambda>p. weight p = min_weight d) d else d))"

text \<open>Modelled from the spec: ``enumerate all accepted strings''.\<close>

definition spec_lattice_to_strings :: "wfst \<Rightarrow> 't option \<Rightarrow> lib_error + string list" where
  "spec_lattice_to_strings lattice token_type = Inr (map ostring lattice)"

text \<open>
  Modelled from the spec: the \<open>n\<close> lowest-weight paths, ``returned in non-decreasing
  weight order; ties at equal weight are returned in an implementation-defined but
  stable order''.
\<close>

definition spec_lattice_to_nshortest :: "wfst \<Rightarrow> int \<Rightarrow> lib_error + wfst" where
  "spec_lattice_to_nshortest lattice nshortest =
     Inr (take (nat nshortest) (sort_key weight lattice))"

text \<open>
  Modelled from the spec: ``extract single best path (no determinization, no tie
  handling) and convert to string''. A lattice with no path has no best path.
\<close>

definition spec_lattice_to_top_string :: "wfst \<Rightarrow> 't option \<Rightarrow> lib_error + string" where
  "spec_lattice_to_top_string lattice token_type =
     (case filter (\<lambda>p. weight p = min_weight lattice) lattice of
        [] \<Rightarrow> Inl EmptyLattice
      | p # _ \<Rightarrow> Inr (ostring p))"

text \<open>
  Modelled from the spec: the uniqueness check is made ``after determinizing'': the
  lattice it reads holds one path for each string tied at the lowest weight, so more
  than one path is ``more than one distinct output string ties at the minimal
  weight'', signalled as \<^verbatim>\<open>AmbiguousResultError\<close>. The operation ``fails/returns
  empty'': a lattice with no path gives the empty string.
\<close>

definition spec_lattice_to_one_top_string :: "wfst \<Rightarrow> 't option \<Rightarrow> lib_error + string" where
  "spec_lattice_to_one_top_string lattice token_type =
     (case lattice of
        [] \<Rightarrow> Inr []
      | [p] \<Rightarrow> Inr (ostring p)
      | _ \<Rightarrow> Inl AmbiguousResult)"

text \<open>
  Modelled from the spec: the library, one definition above for each operation, for
  given state counts and best-effort results.
\<close>

definition spec_lib :: "dfa_limits \<Rightarrow> (wfst, 't, lib_error) lib" where
  "spec_lib D =
     \<lparr>arcsort = spec_arcsort,
      rewrite_lattice = spec_rewrite_lattice,
      accep = spec_accep,
      intersect = spec_intersect,
      start = spec_start,
      lattice_to_dfa = spec_lattice_to_dfa D,
      lattice_to_strings = spec_lattice_to_strings,
      lattice_to_nshortest = spec_lattice_to_nshortest,
      lattice_to_top_string = spec_lattice_to_top_string,
      lattice_to_one_top_string = spec_lattice_to_one_top_string\<rparr>"

text \<open>
  The condition of the ambiguity claim: two distinct strings, each written by a path
  of the lowest weight.
\<close>

definition tied_at_top :: "wfst \<Rightarrow> bool" where
  "tied_at_top f =
     (\<exists>p \<in> set f. \<exists>q \<in> set f.
        ostring p \<noteq> ostring q \<and> weight p = min_weight f \<and> weight q = min_weight f)"

text \<open>
  The automaton \<^verbatim>\<open>optimalRewrites\<close> and \<^verbatim>\<open>oneTopRewrite\<close> read within the state
  bound: what the determinization with \<open>optimal_only\<close> set returns there.
\<close>

definition optimal_dfa :: "wfst \<Rightarrow> wfst" where
  "optimal_dfa f = filter (\<lambda>p. weight p = min_weight (determinize f)) (determinize f)"

text \<open>
  An example archive in the spirit of the specification's scenario: a rule spelling
  the digit 5 two ways at the same weight, a rule lowering the case of what the first
  one writes, and a rule preferring one spelling.
\<close>

definition ex_far :: "wfst far" where
  "ex_far = map_of
     [(''digits'', [Path ''5'' ''Five'' 1, Path ''5'' ''5'' 1]),
      (''lowercase'', [Path ''Five'' ''five'' 0, Path ''5'' ''5'' 0]),
      (''prefer'', [Path ''5'' ''Five'' 1, Path ''5'' ''5'' 2, Path ''5'' ''Five'' 3])]"

definition ex_cascade :: "wfst rule_cascade" where
  "ex_cascade =
     \<lparr>far = ex_far,
      rules = [[Path ''5'' ''Five'' 1, Path ''5'' ''5'' 1],
               [Path ''Five'' ''five'' 0, Path ''5'' ''5'' 0]]\<rparr>"

definition ex_prefer :: "wfst rule_cascade" where
  "ex_prefer =
     \<lparr>far = ex_far,
      rules = [[Path ''5'' ''Five'' 1, Path ''5'' ''5'' 2, Path ''5'' ''Five'' 3],
               [Path ''Five'' ''five'' 0, Path ''5'' ''5'' 0]]\<rparr>"

text \<open>
  The rules of \<open>ex_cascade\<close> in the other order: on the input \<open>Five\<close> the first rule
  writes \<open>five\<close>, which the second rule does not read.
\<close>

definition ex_stuck :: "wfst rule_cascade" where
  "ex_stuck =
     \<lparr>far = ex_far,
      rules = [[Path ''Five'' ''five'' 0, Path ''5'' ''5'' 0],
               [Path ''5'' ''Five'' 1, Path ''5'' ''5'' 1]]\<rparr>"

text \<open>
  Example state counts: every path lies on states of its own, reached from a common
  start state, and the best-effort result keeps as many paths of the determinization
  as the bound counts.
\<close>

definition ex_limits :: dfa_limits where
  "ex_limits =
     \<lparr>num_states = (\<lambda>f. Suc (sum_list (map (\<lambda>p. length (ostring p)) f))),
      dfa_states = (\<lambda>f. Suc (sum_list (map (\<lambda>p. length (ostring p)) (determinize f)))),
      best_effort = (\<lambda>f bound. take (nat bound) (determinize f))\<rparr>"

text \<open>
  The library with these, at the token types of \<^verbatim>\<open>pynini\<close> given by name
  (\<^verbatim>\<open>"byte"\<close>, \<^verbatim>\<open>"utf8"\<close>).
\<close>

definition ex_lib :: "(wfst, string, lib_error) lib" where
  "ex_lib = spec_lib ex_limits"

section \<open>Configuration: \<^verbatim>\<open>set_rules\<close>\<close>

lemma set_rules_loop_found:
  "\<forall>n \<in> set names. a n \<noteq> None \<Longrightarrow>
   set_rules_loop L a rs names = (Inr (), rs @ map (\<lambda>n. arcsort L (the (a n)) ''ilabel'') names)"
  by (induction names arbitrary: rs) auto

lemma set_rules_loop_missing:
  "\<forall>m \<in> set pre. a m \<noteq> None \<Longrightarrow> a n = None \<Longrightarrow>
   set_rules_loop L a rs (pre @ n # post) =
     (Inl (Error (''Cannot find rule: '' @ n)),
      rs @ map (\<lambda>m. arcsort L (the (a m)) ''ilabel'') pre)"
  by (induction pre arbitrary: rs) auto

lemma spec_lib_simps:
  "arcsort (spec_lib D) = spec_arcsort"
  "rewrite_lattice (spec_lib D) = spec_rewrite_lattice"
  "accep (spec_lib D) = spec_accep"
  "intersect (spec_lib D) = spec_intersect"
  "start (spec_lib D) = spec_start"
  "lattice_to_dfa (spec_lib D) = spec_lattice_to_dfa D"
  "lattice_to_strings (spec_lib D) = spec_lattice_to_strings"
  "lattice_to_nshortest (spec_lib D) = spec_lattice_to_nshortest"
  "lattice_to_top_string (spec_lib D) = spec_lattice_to_top_string"
  "lattice_to_one_top_string (spec_lib D) = spec_lattice_to_one_top_string"
  by (simp_all add: spec_lib_def)

lemma ex_far_simps:
  "ex_far ''digits'' = Some [Path ''5'' ''Five'' 1, Path ''5'' ''5'' 1]"
  "ex_far ''lowercase'' = Some [Path ''Five'' ''five'' 0, Path ''5'' ''5'' 0]"
  "ex_far ''prefer'' = Some [Path ''5'' ''Five'' 1, Path ''5'' ''5'' 2, Path ''5'' ''Five'' 3]"
  "ex_far ''missing'' = None"
  by (simp_all add: ex_far_def)

text \<open>
  Claim C3. When some name of the sequence is absent from the archive, the names split
  into a prefix of names that all resolve, the first absent name \<open>n\<close>, and the rest.
  \<^verbatim>\<open>set_rules\<close> then raises the error naming \<open>n\<close>, and the rule list it leaves holds
  the arc-sorted relations of the prefix, in order, and nothing else: nothing of the
  previous list (it is cleared first) and nothing of the names after \<open>n\<close>.
\<close>

theorem set_rules_missing:
  assumes "\<exists>n \<in> set names. far c n = None"
  shows "\<exists>pre n post.
           names = pre @ n # post \<and> (\<forall>m \<in> set pre. far c m \<noteq> None) \<and> far c n = None \<and>
           set_rules L c names =
             (Inl (Error (''Cannot find rule: '' @ n)),
              c\<lparr>rules := map (\<lambda>m. arcsort L (the (far c m)) ''ilabel'') pre\<rparr>)"
proof -
  from assms obtain pre n post where d: "names = pre @ n # post" "far c n = None"
     "\<forall>m \<in> set pre. \<not> (far c m = None)"
    using split_list_first_prop[of names "\<lambda>n. far c n = None"] by blast
  have "set_rules L c names =
          (Inl (Error (''Cannot find rule: '' @ n)),
           c\<lparr>rules := map (\<lambda>m. arcsort L (the (far c m)) ''ilabel'') pre\<rparr>)"
    using d set_rules_loop_missing[of pre "far c" n L "[]" post] by (simp add: set_rules_def)
  with d show ?thesis by blast
qed

theorem set_rules_missing_witness:
  "(\<exists>n \<in> set [''digits'', ''missing'', ''lowercase'']. far ex_cascade n = None) \<and>
   (\<exists>pre n post.
      [''digits'', ''missing'', ''lowercase''] = pre @ n # post \<and>
      (\<forall>m \<in> set pre. far ex_cascade m \<noteq> None) \<and> far ex_cascade n = None \<and>
      set_rules ex_lib ex_cascade [''digits'', ''missing'', ''lowercase''] =
        (Inl (Error (''Cannot find rule: '' @ n)),
         ex_cascade\<lparr>rules := map (\<lambda>m. arcsort ex_lib (the (far ex_cascade m)) ''ilabel'') pre\<rparr>)) \<and>
   set_rules ex_lib ex_cascade [''digits'', ''missing'', ''lowercase''] =
     (Inl (Error ''Cannot find rule: missing''),
      \<lparr>far = ex_far, rules = [[Path ''5'' ''Five'' 1, Path ''5'' ''5'' 1]]\<rparr>)"
proof -
  have h: "\<exists>n \<in> set [''digits'', ''missing'', ''lowercase'']. far ex_cascade n = None"
    by (simp add: ex_cascade_def ex_far_simps)
  have e: "set_rules ex_lib ex_cascade [''digits'', ''missing'', ''lowercase''] =
     (Inl (Error ''Cannot find rule: missing''),
      \<lparr>far = ex_far, rules = [[Path ''5'' ''Five'' 1, Path ''5'' ''5'' 1]]\<rparr>)"
    by (simp add: set_rules_def ex_cascade_def ex_far_simps ex_lib_def spec_lib_simps
        spec_arcsort_def)
  show ?thesis using h e set_rules_missing[OF h, of ex_lib] by blast
qed

lemma rewrite_loop_arcsort:
  "rewrite_loop (L\<lparr>arcsort := a\<rparr>) it x rs = rewrite_loop L it x rs"
  by (induction rs arbitrary: x) (auto split: sum.splits)

lemma cascade_rewrite_lattice_arcsort:
  "cascade_rewrite_lattice (L\<lparr>arcsort := a\<rparr>) c x it = cascade_rewrite_lattice L c x it"
  by (simp add: cascade_rewrite_lattice_def rewrite_loop_arcsort
      split: sum.splits fstlike.splits)

text \<open>
  Claim C9. When every name resolves, \<^verbatim>\<open>set_rules\<close> succeeds and the rule list it
  leaves is, whatever it held before, the list of the relations bound to the names, in
  the order of the names, each passed through \<^verbatim>\<open>arcsort(sort_type="ilabel")\<close>. No
  rewrite operation sorts again: none of them depends on the library's \<open>arcsort\<close>, so
  replacing it by any other function \<open>a\<close> changes no result.
\<close>

theorem set_rules_resolved:
  assumes "\<forall>n \<in> set names. far c n \<noteq> None"
  shows "set_rules L c names =
           (Inr (), c\<lparr>rules := map (\<lambda>n. arcsort L (the (far c n)) ''ilabel'') names\<rparr>)
    \<and> cascade_rewrite_lattice (L\<lparr>arcsort := a\<rparr>) c' x it = cascade_rewrite_lattice L c' x it
    \<and> matches (L\<lparr>arcsort := a\<rparr>) c' x y it ot = matches L c' x y it ot
    \<and> cascade_rewrites (L\<lparr>arcsort := a\<rparr>) c' x it ot sm = cascade_rewrites L c' x it ot sm
    \<and> top_rewrites (L\<lparr>arcsort := a\<rparr>) c' x k it ot = top_rewrites L c' x k it ot
    \<and> top_rewrite (L\<lparr>arcsort := a\<rparr>) c' x it ot = top_rewrite L c' x it ot
    \<and> one_top_rewrite (L\<lparr>arcsort := a\<rparr>) c' x it ot sm = one_top_rewrite L c' x it ot sm
    \<and> optimal_rewrites (L\<lparr>arcsort := a\<rparr>) c' x it ot sm = optimal_rewrites L c' x it ot sm"
proof -
  have "set_rules L c names =
           (Inr (), c\<lparr>rules := map (\<lambda>n. arcsort L (the (far c n)) ''ilabel'') names\<rparr>)"
    using assms set_rules_loop_found[of names "far c" L "[]"] by (simp add: set_rules_def)
  moreover have "matches (L\<lparr>arcsort := a\<rparr>) c' x y it ot = matches L c' x y it ot"
    by (cases ot) (simp_all add: matches_def cascade_rewrite_lattice_arcsort)
  moreover have
    "cascade_rewrites (L\<lparr>arcsort := a\<rparr>) c' x it ot sm = cascade_rewrites L c' x it ot sm"
    by (simp add: cascade_rewrites_def cascade_rewrite_lattice_arcsort)
  moreover have "top_rewrites (L\<lparr>arcsort := a\<rparr>) c' x k it ot = top_rewrites L c' x k it ot"
    by (simp add: top_rewrites_def cascade_rewrite_lattice_arcsort)
  moreover have "top_rewrite (L\<lparr>arcsort := a\<rparr>) c' x it ot = top_rewrite L c' x it ot"
    by (simp add: top_rewrite_def cascade_rewrite_lattice_arcsort)
  moreover have
    "one_top_rewrite (L\<lparr>arcsort := a\<rparr>) c' x it ot sm = one_top_rewrite L c' x it ot sm"
    by (simp add: one_top_rewrite_def cascade_rewrite_lattice_arcsort)
  moreover have
    "optimal_rewrites (L\<lparr>arcsort := a\<rparr>) c' x it ot sm = optimal_rewrites L c' x it ot sm"
    by (simp add: optimal_rewrites_def cascade_rewrite_lattice_arcsort)
  ultimately show ?thesis by (simp add: cascade_rewrite_lattice_arcsort)
qed

text \<open>
  The example: on a cascade that holds the rules of \<open>ex_prefer\<close>, naming \<open>digits\<close> and
  \<open>lowercase\<close> leaves exactly the rules of \<open>ex_cascade\<close>.
\<close>

theorem set_rules_resolved_witness:
  "far ex_prefer ''digits'' \<noteq> None \<and> far ex_prefer ''lowercase'' \<noteq> None \<and>
   set_rules ex_lib ex_prefer [''digits'', ''lowercase''] = (Inr (), ex_cascade) \<and>
   one_top_rewrite (ex_lib\<lparr>arcsort := \<lambda>f t. []\<rparr>) ex_cascade (Str ''5'') None None 4 =
     one_top_rewrite ex_lib ex_cascade (Str ''5'') None None 4"
proof -
  have h: "\<forall>n \<in> set [''digits'', ''lowercase'']. far ex_prefer n \<noteq> None"
    by (simp add: ex_prefer_def ex_far_simps)
  have e: "ex_prefer\<lparr>rules := map (\<lambda>n. arcsort ex_lib (the (far ex_prefer n)) ''ilabel'')
                                  [''digits'', ''lowercase'']\<rparr> = ex_cascade"
    by (simp add: ex_prefer_def ex_cascade_def ex_far_simps ex_lib_def spec_lib_simps
        spec_arcsort_def)
  show ?thesis
    using h e
      set_rules_resolved[OF h, of ex_lib "\<lambda>f t. []" ex_cascade "Str ''5''" None "Str ''5''"
        None 4 1]
    by simp
qed

section \<open>The guard on the empty rule list\<close>

text \<open>
  Claim C10. \<^verbatim>\<open>set_rules\<close> on an empty sequence of names succeeds and leaves the rule
  list empty; on the cascade it leaves, each of the six rewrite operations fails with
  the error \<^verbatim>\<open>No rules requested\<close>, for every input.
\<close>

theorem set_rules_empty:
  "set_rules L c [] = (Inr (), c\<lparr>rules := []\<rparr>)
   \<and> matches L (snd (set_rules L c [])) x y it ot = Inl (Error ''No rules requested'')
   \<and> cascade_rewrites L (snd (set_rules L c [])) x it ot sm = Inl (Error ''No rules requested'')
   \<and> top_rewrites L (snd (set_rules L c [])) x k it ot = Inl (Error ''No rules requested'')
   \<and> top_rewrite L (snd (set_rules L c [])) x it ot = Inl (Error ''No rules requested'')
   \<and> one_top_rewrite L (snd (set_rules L c [])) x it ot sm = Inl (Error ''No rules requested'')
   \<and> optimal_rewrites L (snd (set_rules L c [])) x it ot sm = Inl (Error ''No rules requested'')"
  by (simp add: set_rules_def matches_def cascade_rewrites_def top_rewrites_def top_rewrite_def
      one_top_rewrite_def optimal_rewrites_def cascade_rewrite_lattice_def and_then_def)

theorem set_rules_empty_witness:
  "set_rules ex_lib ex_cascade [] = (Inr (), \<lparr>far = ex_far, rules = []\<rparr>) \<and>
   top_rewrite ex_lib (snd (set_rules ex_lib ex_cascade [])) (Str ''5'') None None =
     Inl (Error ''No rules requested'')"
proof -
  have e: "ex_cascade\<lparr>rules := []\<rparr> = \<lparr>far = ex_far, rules = []\<rparr>"
    by (simp add: ex_cascade_def)
  note t = set_rules_empty[of ex_lib ex_cascade "Str ''5''" "Str ''5''" None None 4 1]
  from t have a: "set_rules ex_lib ex_cascade [] = (Inr (), ex_cascade\<lparr>rules := []\<rparr>)"
    by blast
  from t have b: "top_rewrite ex_lib (snd (set_rules ex_lib ex_cascade [])) (Str ''5'') None None =
     Inl (Error ''No rules requested'')"
    by blast
  from a[unfolded e] b show ?thesis by blast
qed

text \<open>
  Claim C4. With an empty rule list, the lattice builder and each of the six rewrite
  operations fail with the error \<^verbatim>\<open>No rules requested\<close>, for every input. The
  statement holds for every library \<open>L\<close>, also one whose composition fails or returns
  anything at all: the outcome is fixed before the library is consulted.
\<close>

theorem no_rules_error:
  assumes "rules c = []"
  shows "cascade_rewrite_lattice L c x it = Inl (Error ''No rules requested'')
   \<and> matches L c x y it ot = Inl (Error ''No rules requested'')
   \<and> cascade_rewrites L c x it ot sm = Inl (Error ''No rules requested'')
   \<and> top_rewrites L c x k it ot = Inl (Error ''No rules requested'')
   \<and> top_rewrite L c x it ot = Inl (Error ''No rules requested'')
   \<and> one_top_rewrite L c x it ot sm = Inl (Error ''No rules requested'')
   \<and> optimal_rewrites L c x it ot sm = Inl (Error ''No rules requested'')"
  using assms
  by (simp add: matches_def cascade_rewrites_def top_rewrites_def top_rewrite_def
      one_top_rewrite_def optimal_rewrites_def cascade_rewrite_lattice_def and_then_def)

theorem no_rules_error_witness:
  "rules (init ex_far) = [] \<and>
   cascade_rewrite_lattice ex_lib (init ex_far) (Str ''5'') None = Inl (Error ''No rules requested'')
   \<and> matches ex_lib (init ex_far) (Str ''5'') (Str ''five'') None None =
       Inl (Error ''No rules requested'')
   \<and> cascade_rewrites ex_lib (init ex_far) (Str ''5'') None None 4 =
       Inl (Error ''No rules requested'')
   \<and> top_rewrites ex_lib (init ex_far) (Str ''5'') 1 None None = Inl (Error ''No rules requested'')
   \<and> top_rewrite ex_lib (init ex_far) (Str ''5'') None None = Inl (Error ''No rules requested'')
   \<and> one_top_rewrite ex_lib (init ex_far) (Str ''5'') None None 4 =
       Inl (Error ''No rules requested'')
   \<and> optimal_rewrites ex_lib (init ex_far) (Str ''5'') None None 4 =
       Inl (Error ''No rules requested'')"
proof -
  have h: "rules (init ex_far) = []" by (simp add: init_def)
  show ?thesis
    using h no_rules_error[OF h, of ex_lib "Str ''5''" None "Str ''five''" None 4 1]
    by simp
qed

section \<open>The lattice builder\<close>

lemma rewrite_loop_append:
  "rewrite_loop L tt x (rs @ [r]) = compose_step L tt (rewrite_loop L tt x rs) r"
  by (induction rs arbitrary: x)
     (auto simp: compose_step_def and_then_def lift_lib_def split: sum.splits)

lemma lattice_seq_append:
  "i \<le> length rs \<Longrightarrow> lattice_seq L tt x (rs @ [r]) i = lattice_seq L tt x rs i"
  by (induction i) (auto simp: nth_append)

lemma rewrite_loop_seq:
  "rewrite_loop L tt x rs = lattice_seq L tt x rs (length rs)"
proof (induction rs rule: rev_induct)
  case Nil
  show ?case by simp
next
  case (snoc r rs)
  then show ?case
    using lattice_seq_append[of "length rs" rs L tt x r] by (simp add: rewrite_loop_append)
qed

lemma rewrite_loop_foldl:
  "rewrite_loop L tt x rs = foldl (compose_step L tt) (Inr x) rs"
  by (induction rs rule: rev_induct) (simp_all add: rewrite_loop_append)

lemma lattice_seq_is_fst:
  "0 < i \<Longrightarrow> lattice_seq L tt x rs i \<noteq> Inr (Str s)"
  by (cases i) (auto simp: compose_step_def and_then_def lift_lib_def split: sum.splits)

text \<open>
  Claim C5. For a non-empty rule list, \<^verbatim>\<open>_rewrite_lattice\<close> returns the last lattice of
  the specification's sequence \<open>lattice_0 = input\<close>,
  \<open>lattice_i = compose(lattice_(i-1), rules[i])\<close>, which is the left fold of the
  composition step over the rules in list order, coerced to an acceptor where it is
  not an automaton (an error of a step or of the coercion is the result). The last
  conjunct adds that, the list being non-empty, the last lattice is never a string.
\<close>

theorem rewrite_lattice_fold:
  assumes "rules c \<noteq> []"
  shows "cascade_rewrite_lattice L c x tt =
           and_then (lattice_seq L tt x (rules c) (length (rules c))) (to_acceptor L tt)
    \<and> lattice_seq L tt x (rules c) (length (rules c)) =
           foldl (compose_step L tt) (Inr x) (rules c)
    \<and> (\<forall>s. lattice_seq L tt x (rules c) (length (rules c)) \<noteq> Inr (Str s))"
proof -
  have "cascade_rewrite_lattice L c x tt =
          and_then (lattice_seq L tt x (rules c) (length (rules c))) (to_acceptor L tt)"
    using assms
    by (simp add: cascade_rewrite_lattice_def rewrite_loop_seq and_then_def lift_lib_def
        to_acceptor_def split: sum.splits fstlike.splits)
  moreover have "lattice_seq L tt x (rules c) (length (rules c)) =
          foldl (compose_step L tt) (Inr x) (rules c)"
    using rewrite_loop_seq[of L tt x "rules c"] rewrite_loop_foldl[of L tt x "rules c"] by simp
  moreover have "\<forall>s. lattice_seq L tt x (rules c) (length (rules c)) \<noteq> Inr (Str s)"
    using assms by (simp add: lattice_seq_is_fst)
  ultimately show ?thesis by blast
qed

theorem rewrite_lattice_fold_witness:
  "rules ex_cascade \<noteq> [] \<and>
   cascade_rewrite_lattice ex_lib ex_cascade (Str ''5'') None =
     and_then (lattice_seq ex_lib None (Str ''5'') (rules ex_cascade) (length (rules ex_cascade)))
       (to_acceptor ex_lib None) \<and>
   lattice_seq ex_lib None (Str ''5'') (rules ex_cascade) 1 =
     Inr (Fst [Path ''Five'' ''Five'' 1, Path ''5'' ''5'' 1]) \<and>
   lattice_seq ex_lib None (Str ''5'') (rules ex_cascade) (length (rules ex_cascade)) =
     Inr (Fst [Path ''five'' ''five'' 1, Path ''5'' ''5'' 1]) \<and>
   cascade_rewrite_lattice ex_lib ex_cascade (Str ''5'') None =
     Inr [Path ''five'' ''five'' 1, Path ''5'' ''5'' 1]"
proof -
  have h: "rules ex_cascade \<noteq> []" by (simp add: ex_cascade_def)
  have s1: "lattice_seq ex_lib None (Str ''5'') (rules ex_cascade) (Suc 0) =
     Inr (Fst [Path ''Five'' ''Five'' 1, Path ''5'' ''5'' 1])"
    by (simp add: ex_cascade_def ex_lib_def spec_lib_simps compose_step_def and_then_def
        lift_lib_def spec_rewrite_lattice_def to_fst_def compose_paths_def)
  have s2: "lattice_seq ex_lib None (Str ''5'') (rules ex_cascade) (Suc (Suc 0)) =
     Inr (Fst [Path ''five'' ''five'' 1, Path ''5'' ''5'' 1])"
    unfolding lattice_seq.simps(2)[of _ _ _ _ "Suc 0"] s1
    by (simp add: ex_cascade_def ex_lib_def spec_lib_simps compose_step_def and_then_def
        lift_lib_def spec_rewrite_lattice_def to_fst_def compose_paths_def)
  have l: "length (rules ex_cascade) = Suc (Suc 0)" by (simp add: ex_cascade_def)
  note t = rewrite_lattice_fold[OF h, of ex_lib "Str ''5''" None]
  from t have a: "cascade_rewrite_lattice ex_lib ex_cascade (Str ''5'') None =
     and_then (lattice_seq ex_lib None (Str ''5'') (rules ex_cascade) (length (rules ex_cascade)))
       (to_acceptor ex_lib None)"
    by blast
  have b: "cascade_rewrite_lattice ex_lib ex_cascade (Str ''5'') None =
     Inr [Path ''five'' ''five'' 1, Path ''5'' ''5'' 1]"
    unfolding a l s2 by (simp add: and_then_def to_acceptor_def)
  from h a s1 s2 b show ?thesis unfolding l One_nat_def by blast
qed

section \<open>Membership: \<^verbatim>\<open>matches\<close>\<close>

text \<open>
  Claim C6. \<^verbatim>\<open>matches\<close> builds the rewrite lattice of the input, intersects it with
  the output under the \<^verbatim>\<open>"sequence"\<close> compose filter (with the output token type as
  the default token type), and returns whether the start state of the result is not
  \<^verbatim>\<open>NO_STATE_ID\<close>; an error of either step is the result. The two branches of the
  source on the output token type are one computation.
\<close>

theorem matches_intersect_start:
  "matches L c istr ostr it ot =
     and_then (cascade_rewrite_lattice L c istr it) (\<lambda>lattice.
     and_then (lift_lib (intersect L lattice ostr ''sequence'' ot)) (\<lambda>r.
     Inr (start L r \<noteq> NO_STATE_ID)))"
  by (cases ot) (simp_all add: matches_def)

theorem matches_intersect_start_witness:
  "matches ex_lib ex_cascade (Str ''5'') (Str ''five'') None None = Inr True \<and>
   matches ex_lib ex_cascade (Str ''5'') (Str ''Five'') None None = Inr False \<and>
   matches ex_lib ex_cascade (Str ''7'') (Str ''five'') None None =
     Inl (LibError CompositionFailure)"
proof -
  have l: "cascade_rewrite_lattice ex_lib ex_cascade (Str ''5'') None =
     Inr [Path ''five'' ''five'' 1, Path ''5'' ''5'' 1]"
    by (simp add: cascade_rewrite_lattice_def ex_cascade_def ex_lib_def spec_lib_simps
        spec_rewrite_lattice_def to_fst_def compose_paths_def)
  have f: "cascade_rewrite_lattice ex_lib ex_cascade (Str ''7'') None =
     Inl (LibError CompositionFailure)"
    by (simp add: cascade_rewrite_lattice_def ex_cascade_def ex_lib_def spec_lib_simps
        spec_rewrite_lattice_def to_fst_def compose_paths_def)
  have "matches ex_lib ex_cascade (Str ''5'') (Str ''five'') None None = Inr True"
    unfolding matches_intersect_start[of ex_lib ex_cascade "Str ''5''" "Str ''five''"] l
    by (simp add: and_then_def lift_lib_def ex_lib_def spec_lib_simps spec_intersect_def
        spec_start_def NO_STATE_ID_def to_fst_def compose_paths_def)
  moreover have "matches ex_lib ex_cascade (Str ''5'') (Str ''Five'') None None = Inr False"
    unfolding matches_intersect_start[of ex_lib ex_cascade "Str ''5''" "Str ''Five''"] l
    by (simp add: and_then_def lift_lib_def ex_lib_def spec_lib_simps spec_intersect_def
        spec_start_def NO_STATE_ID_def to_fst_def compose_paths_def)
  moreover have "matches ex_lib ex_cascade (Str ''7'') (Str ''five'') None None =
     Inl (LibError CompositionFailure)"
    unfolding matches_intersect_start[of ex_lib ex_cascade "Str ''7''" "Str ''five''"] f
    by (simp add: and_then_def)
  ultimately show ?thesis by blast
qed

section \<open>The library after the specification: weights and determinization\<close>

lemma min_weight_Min: "f \<noteq> [] \<Longrightarrow> min_weight f = Min (weight ` set f)"
  by (simp add: min_weight_def min_list_Min)

lemma min_weight_le: "p \<in> set f \<Longrightarrow> min_weight f \<le> weight p"
  by (cases "f = []") (auto simp: min_weight_Min)

lemma min_weight_attained: "f \<noteq> [] \<Longrightarrow> \<exists>p \<in> set f. weight p = min_weight f"
proof -
  assume ne: "f \<noteq> []"
  then have "Min (weight ` set f) \<in> weight ` set f" by (intro Min_in) auto
  then obtain p where "p \<in> set f" "weight p = Min (weight ` set f)" by auto
  with ne show ?thesis by (auto simp: min_weight_Min)
qed

lemma set_paths_of: "set (paths_of f s) = {p \<in> set f. ostring p = s}"
  by (auto simp: paths_of_def)

lemma string_weight_le: "p \<in> set f \<Longrightarrow> string_weight f (ostring p) \<le> weight p"
  unfolding string_weight_def using min_weight_le[of p "paths_of f (ostring p)"]
  by (simp add: min_weight_def set_paths_of)

lemma string_weight_attained:
  "s \<in> ostring ` set f \<Longrightarrow> \<exists>p \<in> set f. ostring p = s \<and> weight p = string_weight f s"
proof -
  assume "s \<in> ostring ` set f"
  then have "paths_of f s \<noteq> []" by (auto simp: paths_of_def filter_empty_conv)
  from min_weight_attained[OF this] show ?thesis
    by (auto simp: set_paths_of string_weight_def min_weight_def)
qed

lemma string_weight_of_best:
  assumes "p \<in> set f" and "weight p = min_weight f"
  shows "string_weight f (ostring p) = min_weight f"
proof -
  from string_weight_attained[of "ostring p" f] assms(1)
  obtain r where r: "r \<in> set f" "weight r = string_weight f (ostring p)" by auto
  show ?thesis
    using string_weight_le[OF assms(1)] assms(2) min_weight_le[OF r(1)] r(2) by simp
qed

lemma ostring_determinize: "map ostring (determinize f) = remdups (map ostring f)"
  by (simp add: determinize_def comp_def)

lemma set_determinize:
  "set (determinize f) = (\<lambda>s. Path s s (string_weight f s)) ` ostring ` set f"
  by (simp add: determinize_def)

lemma determinize_empty: "(determinize f = []) = (f = [])"
  by (simp add: determinize_def)

text \<open>Determinization keeps the lowest weight of the lattice.\<close>

lemma min_weight_determinize: "f \<noteq> [] \<Longrightarrow> min_weight (determinize f) = min_weight f"
proof (rule antisym)
  assume ne: "f \<noteq> []"
  then obtain p where p: "p \<in> set f" "weight p = min_weight f"
    using min_weight_attained by blast
  have "Path (ostring p) (ostring p) (string_weight f (ostring p)) \<in> set (determinize f)"
    using p by (simp add: set_determinize)
  from min_weight_le[OF this] string_weight_le[OF p(1)] p(2)
  show "min_weight (determinize f) \<le> min_weight f" by simp
  from ne have "determinize f \<noteq> []" by (simp add: determinize_empty)
  then obtain q where q: "q \<in> set (determinize f)" "weight q = min_weight (determinize f)"
    using min_weight_attained by blast
  then obtain s where s: "s \<in> ostring ` set f" "q = Path s s (string_weight f s)"
    by (auto simp: set_determinize)
  from string_weight_attained[OF s(1)] obtain r where "r \<in> set f" "weight r = string_weight f s"
    by blast
  with q s min_weight_le[of r f] show "min_weight f \<le> min_weight (determinize f)" by simp
qed

text \<open>The strings of the optimal automaton are those written by a path of the lowest weight.\<close>

lemma set_optimal:
  assumes "f \<noteq> []"
  shows "set (map ostring (optimal_dfa f)) =
           {ostring p | p. p \<in> set f \<and> weight p = min_weight f}" (is "?A = ?B")
proof
  show "?A \<subseteq> ?B"
  proof
    fix s assume "s \<in> ?A"
    then have s: "s \<in> ostring ` set f" "string_weight f s = min_weight f"
      using assms by (auto simp: optimal_dfa_def set_determinize min_weight_determinize)
    from string_weight_attained[OF s(1)] s(2) show "s \<in> ?B" by auto
  qed
  show "?B \<subseteq> ?A"
  proof
    fix s assume "s \<in> ?B"
    then obtain p where p: "p \<in> set f" "weight p = min_weight f" "ostring p = s" by auto
    from string_weight_of_best[OF p(1) p(2)] p(3) have "string_weight f s = min_weight f"
      by simp
    then show "s \<in> ?A" using p assms
      by (auto simp: optimal_dfa_def set_determinize min_weight_determinize image_iff)
  qed
qed

lemma distinct_optimal: "distinct (map ostring (optimal_dfa f))"
proof -
  have "distinct (map ostring (determinize f))" by (simp add: ostring_determinize)
  then show ?thesis unfolding optimal_dfa_def by (rule distinct_map_filter)
qed

lemma optimal_dfa_nonempty: "f \<noteq> [] \<Longrightarrow> optimal_dfa f \<noteq> []"
proof -
  assume "f \<noteq> []"
  then have "determinize f \<noteq> []" by (simp add: determinize_empty)
  from min_weight_attained[OF this] show ?thesis
    by (auto simp: optimal_dfa_def filter_empty_conv)
qed

lemma all_share_iff:
  assumes "f \<noteq> []"
  shows "(ostring ` set f \<subseteq> {ostring p | p. p \<in> set f \<and> weight p = min_weight f})
       = (\<forall>s \<in> ostring ` set f. string_weight f s = min_weight f)"
proof
  assume l: "ostring ` set f \<subseteq> {ostring p | p. p \<in> set f \<and> weight p = min_weight f}"
  show "\<forall>s \<in> ostring ` set f. string_weight f s = min_weight f"
  proof
    fix s assume s: "s \<in> ostring ` set f"
    with l obtain p where p: "p \<in> set f" "weight p = min_weight f" "ostring p = s" by auto
    from string_weight_of_best[OF p(1) p(2)] p(3) show "string_weight f s = min_weight f"
      by simp
  qed
next
  assume r: "\<forall>s \<in> ostring ` set f. string_weight f s = min_weight f"
  show "ostring ` set f \<subseteq> {ostring p | p. p \<in> set f \<and> weight p = min_weight f}"
  proof
    fix s assume s: "s \<in> ostring ` set f"
    from string_weight_attained[OF s] obtain p where
      "p \<in> set f" "ostring p = s" "weight p = string_weight f s" by blast
    moreover have "string_weight f s = min_weight f" using r s by blast
    ultimately show "s \<in> {ostring p | p. p \<in> set f \<and> weight p = min_weight f}" by auto
  qed
qed

lemma tied_iff:
  "tied_at_top f =
     (\<exists>s t. s \<noteq> t \<and> s \<in> {ostring p | p. p \<in> set f \<and> weight p = min_weight f}
        \<and> t \<in> {ostring p | p. p \<in> set f \<and> weight p = min_weight f})"
  unfolding tied_at_top_def by blast

text \<open>The first path of the paths sorted by weight has the lowest weight.\<close>

lemma hd_sort_key_min:
  assumes "f \<noteq> []"
  shows "hd (sort_key weight f) \<in> set f \<and> weight (hd (sort_key weight f)) = min_weight f"
proof -
  let ?s = "sort_key weight f"
  have ne: "?s \<noteq> []" using assms by (metis length_sort list.size(3) length_0_conv)
  then have hin: "hd ?s \<in> set f" using hd_in_set[OF ne] by simp
  have srt: "sorted (map weight ?s)" by (rule sorted_sort_key)
  have "\<forall>q \<in> set f. weight (hd ?s) \<le> weight q"
  proof
    fix q assume "q \<in> set f"
    then have "q \<in> set ?s" by simp
    with srt ne show "weight (hd ?s) \<le> weight q"
      by (cases ?s) auto
  qed
  moreover from min_weight_attained[OF assms] obtain m where "m \<in> set f" "weight m = min_weight f"
    by blast
  ultimately have "weight (hd ?s) \<le> min_weight f" by auto
  with min_weight_le[OF hin] hin show ?thesis by simp
qed

section \<open>The library after the specification: the cascade operations\<close>


lemma rewrite_loop_nonempty:
  "rewrite_loop (spec_lib D) tt x rs = Inr y \<Longrightarrow> rs \<noteq> [] \<Longrightarrow> \<exists>f. y = Fst f \<and> f \<noteq> []"
proof (induction rs arbitrary: x)
  case Nil
  then show ?case by simp
next
  case (Cons r rs)
  from Cons.prems(1) obtain l where l: "spec_rewrite_lattice x r tt = Inr l"
     "rewrite_loop (spec_lib D) tt (Fst l) rs = Inr y"
    by (auto simp: spec_lib_simps split: sum.splits)
  from l(1) have "l \<noteq> []"
    by (auto simp: spec_rewrite_lattice_def Let_def split: if_splits)
  show ?case
  proof (cases rs)
    case Nil
    with l \<open>l \<noteq> []\<close> show ?thesis by auto
  next
    case (Cons a as)
    with Cons.IH[OF l(2)] show ?thesis by simp
  qed
qed

lemma lattice_nonempty:
  "cascade_rewrite_lattice (spec_lib D) c x tt = Inr lat \<Longrightarrow> lat \<noteq> []"
  using rewrite_loop_nonempty[of D tt x "rules c"]
  by (auto simp: cascade_rewrite_lattice_def split: if_splits sum.splits fstlike.splits)

lemma lattice_failure:
  assumes "cascade_rewrite_lattice L c x it = Inl e"
  shows "matches L c x y it ot = Inl e" "cascade_rewrites L c x it ot sm = Inl e"
    "top_rewrites L c x k it ot = Inl e" "top_rewrite L c x it ot = Inl e"
    "one_top_rewrite L c x it ot sm = Inl e" "optimal_rewrites L c x it ot sm = Inl e"
  using assms
  by (simp_all add: matches_def cascade_rewrites_def top_rewrites_def top_rewrite_def
      one_top_rewrite_def optimal_rewrites_def and_then_def)

text \<open>Within the state bound, the determinization is the full one.\<close>

lemma dfa_within_bound:
  "within_bound D sm lat \<Longrightarrow>
   spec_lattice_to_dfa D lat optimal_only sm =
     Inr (if optimal_only then optimal_dfa lat else determinize lat)"
  by (simp add: spec_lattice_to_dfa_def optimal_dfa_def Let_def)

text \<open>No determinization is within the bound of a multiplier that is not positive.\<close>

lemma within_bound_positive: "within_bound D sm lat \<Longrightarrow> 0 < sm"
proof (rule ccontr)
  assume w: "within_bound D sm lat" and "\<not> 0 < sm"
  then have "sm * int (num_states D lat) \<le> 0" by (simp add: mult_le_0_iff)
  with w show False by (simp add: within_bound_def)
qed

lemma rewrites_spec:
  "cascade_rewrite_lattice (spec_lib D) c x it = Inr lat \<Longrightarrow> within_bound D sm lat \<Longrightarrow>
   cascade_rewrites (spec_lib D) c x it ot sm = Inr (remdups (map ostring lat))"
  by (simp add: cascade_rewrites_def and_then_def lift_lib_def spec_lib_simps
      dfa_within_bound spec_lattice_to_strings_def ostring_determinize)

lemma optimal_spec:
  "cascade_rewrite_lattice (spec_lib D) c x it = Inr lat \<Longrightarrow> within_bound D sm lat \<Longrightarrow>
   optimal_rewrites (spec_lib D) c x it ot sm = Inr (map ostring (optimal_dfa lat))"
  by (simp add: optimal_rewrites_def and_then_def lift_lib_def spec_lib_simps
      dfa_within_bound spec_lattice_to_strings_def)


lemma one_top_spec:
  assumes "cascade_rewrite_lattice (spec_lib D) c x it = Inr lat" and "within_bound D sm lat"
  shows "one_top_rewrite (spec_lib D) c x it ot sm =
           (case optimal_dfa lat of
              [] \<Rightarrow> Inr []
            | [p] \<Rightarrow> Inr (ostring p)
            | _ \<Rightarrow> Inl (LibError AmbiguousResult))"
  using assms
  by (simp add: one_top_rewrite_def and_then_def lift_lib_def spec_lib_simps
      dfa_within_bound spec_lattice_to_one_top_string_def split: list.splits)

lemma top_spec:
  assumes "cascade_rewrite_lattice (spec_lib D) c x it = Inr lat"
  shows "\<exists>p. p \<in> set lat \<and> weight p = min_weight lat \<and>
             top_rewrite (spec_lib D) c x it ot = Inr (ostring p)"
proof -
  have ne: "lat \<noteq> []" using assms by (rule lattice_nonempty)
  from min_weight_attained[OF ne] have "filter (\<lambda>p. weight p = min_weight lat) lat \<noteq> []"
    by (auto simp: filter_empty_conv)
  then obtain p ps where f: "filter (\<lambda>p. weight p = min_weight lat) lat = p # ps"
    by (cases "filter (\<lambda>p. weight p = min_weight lat) lat") auto
  then have "p \<in> set (filter (\<lambda>p. weight p = min_weight lat) lat)" by simp
  then have "p \<in> set lat" "weight p = min_weight lat" by auto
  moreover have "top_rewrite (spec_lib D) c x it ot = Inr (ostring p)"
    using assms f
    by (simp add: top_rewrite_def and_then_def lift_lib_def spec_lib_simps
        spec_lattice_to_top_string_def)
  ultimately show ?thesis by blast
qed

section \<open>Examples\<close>

text \<open>The lattices of the example cascades, computed.\<close>

lemma ex_cascade_lattice:
  "cascade_rewrite_lattice ex_lib ex_cascade (Str ''5'') None =
     Inr [Path ''five'' ''five'' 1, Path ''5'' ''5'' 1]"
  by (simp add: cascade_rewrite_lattice_def ex_cascade_def ex_lib_def spec_lib_simps
      spec_rewrite_lattice_def to_fst_def compose_paths_def)

lemma ex_prefer_lattice:
  "cascade_rewrite_lattice ex_lib ex_prefer (Str ''5'') None =
     Inr [Path ''five'' ''five'' 1, Path ''5'' ''5'' 2, Path ''five'' ''five'' 3]"
  by (simp add: cascade_rewrite_lattice_def ex_prefer_def ex_lib_def spec_lib_simps
      spec_rewrite_lattice_def to_fst_def compose_paths_def)

lemma ex_cascade_unaccepted:
  "cascade_rewrite_lattice ex_lib ex_cascade (Str ''7'') None =
     Inl (LibError CompositionFailure)"
  by (simp add: cascade_rewrite_lattice_def ex_cascade_def ex_lib_def spec_lib_simps
      spec_rewrite_lattice_def to_fst_def compose_paths_def)

lemma ex_stuck_lattice:
  "cascade_rewrite_lattice ex_lib ex_stuck (Str ''Five'') None =
     Inl (LibError CompositionFailure)"
  by (simp add: cascade_rewrite_lattice_def ex_stuck_def ex_lib_def spec_lib_simps
      spec_rewrite_lattice_def to_fst_def compose_paths_def)

lemma ex_min_weights:
  "min_weight [Path ''five'' ''five'' 1, Path ''5'' ''5'' 1] = 1"
  "min_weight [Path ''five'' ''five'' 1, Path ''5'' ''5'' 2, Path ''five'' ''five'' 3] = 1"
  by (simp_all add: min_weight_def)

text \<open>
  Both lattices stay within the bound of the default multiplier 4, and neither does at
  a negative multiplier.
\<close>

lemma ex_determinize:
  "determinize [Path ''five'' ''five'' 1, Path ''5'' ''5'' 1] =
     [Path ''five'' ''five'' 1, Path ''5'' ''5'' 1]"
  "determinize [Path ''five'' ''five'' 1, Path ''5'' ''5'' 2, Path ''five'' ''five'' 3] =
     [Path ''5'' ''5'' 2, Path ''five'' ''five'' 1]"
  by (simp_all add: determinize_def string_weight_def paths_of_def)

lemma ex_within_bound:
  "within_bound ex_limits 4 [Path ''five'' ''five'' 1, Path ''5'' ''5'' 1]"
  "within_bound ex_limits 4 [Path ''five'' ''five'' 1, Path ''5'' ''5'' 2, Path ''five'' ''five'' 3]"
  "\<not> within_bound ex_limits (- 1000)
       [Path ''five'' ''five'' 1, Path ''5'' ''5'' 2, Path ''five'' ''five'' 3]"
  by (simp_all add: within_bound_def ex_limits_def ex_determinize)

text \<open>At the multiplier \<open>- 1000\<close> the best-effort result of the example keeps no path.\<close>

lemma ex_degraded:
  "spec_lattice_to_dfa ex_limits
     [Path ''five'' ''five'' 1, Path ''5'' ''5'' 2, Path ''five'' ''five'' 3] optimal_only (- 1000) =
   Inr []"
proof -
  have "best_effort ex_limits
          [Path ''five'' ''five'' 1, Path ''5'' ''5'' 2, Path ''five'' ''five'' 3]
          (- 1000 * int (num_states ex_limits
             [Path ''five'' ''five'' 1, Path ''5'' ''5'' 2, Path ''five'' ''five'' 3])) = []"
    by (simp add: ex_limits_def)
  then show ?thesis
    by (simp add: spec_lattice_to_dfa_def ex_within_bound(3))
qed

section \<open>Relations between the rewrite operations\<close>

text \<open>
  The claims of this section are about what the lattice readers return, so they are
  stated for the library written after the specification, for any state counts and
  best-effort results.
\<close>




text \<open>
  Claim C7. When the rewrite lattice of the input is built and exactly one of its
  paths has the lowest weight, \<^verbatim>\<open>top_rewrite\<close> returns a string and
  \<^verbatim>\<open>top_rewrites\<close> with \<open>nshortest = 1\<close> returns the one-element list of that string.
\<close>

theorem top_rewrites_one:
  assumes "cascade_rewrite_lattice (spec_lib D) c x it = Inr lat"
    and "length (filter (\<lambda>p. weight p = min_weight lat) lat) = 1"
  shows "\<exists>s. top_rewrite (spec_lib D) c x it ot = Inr s \<and>
              top_rewrites (spec_lib D) c x 1 it ot = Inr [s]"
proof -
  have ne: "lat \<noteq> []" using assms(1) by (rule lattice_nonempty)
  from assms(2) obtain b where b: "filter (\<lambda>p. weight p = min_weight lat) lat = [b]"
    by (cases "filter (\<lambda>p. weight p = min_weight lat) lat") auto
  have top: "top_rewrite (spec_lib D) c x it ot = Inr (ostring b)"
    using assms(1) b
    by (simp add: top_rewrite_def and_then_def lift_lib_def spec_lib_simps
        spec_lattice_to_top_string_def)
  from hd_sort_key_min[OF ne]
  have "hd (sort_key weight lat) \<in> set (filter (\<lambda>p. weight p = min_weight lat) lat)" by simp
  with b have h: "hd (sort_key weight lat) = b" by simp
  have "sort_key weight lat \<noteq> []" using ne by (metis length_sort list.size(3) length_0_conv)
  then have "take 1 (sort_key weight lat) = [b]" using h
    by (cases "sort_key weight lat") auto
  then have "top_rewrites (spec_lib D) c x 1 it ot = Inr [ostring b]"
    using assms(1)
    by (simp add: top_rewrites_def and_then_def lift_lib_def spec_lib_simps
        spec_lattice_to_nshortest_def spec_lattice_to_strings_def)
  with top show ?thesis by blast
qed

text \<open>In \<open>ex_prefer\<close> the path of weight 1 is the only best path.\<close>

theorem top_rewrites_one_witness:
  "cascade_rewrite_lattice ex_lib ex_prefer (Str ''5'') None =
     Inr [Path ''five'' ''five'' 1, Path ''5'' ''5'' 2, Path ''five'' ''five'' 3] \<and>
   length (filter (\<lambda>p. weight p = min_weight [Path ''five'' ''five'' 1, Path ''5'' ''5'' 2, Path ''five'' ''five'' 3])
      [Path ''five'' ''five'' 1, Path ''5'' ''5'' 2, Path ''five'' ''five'' 3]) = 1 \<and>
   top_rewrite ex_lib ex_prefer (Str ''5'') None None = Inr ''five'' \<and>
   top_rewrites ex_lib ex_prefer (Str ''5'') 1 None None = Inr [''five'']"
proof -
  let ?lat = "[Path ''five'' ''five'' 1, Path ''5'' ''5'' 2, Path ''five'' ''five'' 3]"
  have u: "length (filter (\<lambda>p. weight p = min_weight ?lat) ?lat) = 1"
    by (simp add: ex_min_weights)
  have t: "top_rewrite ex_lib ex_prefer (Str ''5'') None None = Inr ''five''"
    by (simp add: top_rewrite_def ex_prefer_lattice[unfolded ex_lib_def] and_then_def lift_lib_def
        ex_lib_def spec_lib_simps spec_lattice_to_top_string_def ex_min_weights)
  from top_rewrites_one[OF ex_prefer_lattice[unfolded ex_lib_def] u, of None, folded ex_lib_def]
  obtain s where s: "top_rewrite ex_lib ex_prefer (Str ''5'') None None = Inr s"
    "top_rewrites ex_lib ex_prefer (Str ''5'') 1 None None = Inr [s]"
    by blast
  from s(1) t have "s = ''five''" by simp
  with s(2) have "top_rewrites ex_lib ex_prefer (Str ''5'') 1 None None = Inr [''five'']"
    by simp
  with t u ex_prefer_lattice show ?thesis by blast
qed

text \<open>
  Claim C8, amended. For a non-empty rule list and an input on which the lattice is
  built (every rule in turn, not only the first, accepts what reaches it) and
  determinizes within the state bound of the state multiplier, \<^verbatim>\<open>optimal_rewrites\<close>
  returns, without repetition, exactly the strings written by a path of the lowest
  weight of the lattice. They are among the strings of \<^verbatim>\<open>rewrites\<close>; the strings of
  \<^verbatim>\<open>rewrites\<close> are all among them exactly when every string of \<^verbatim>\<open>rewrites\<close> has the
  lowest weight as its best weight, and otherwise they are a strict subset.
\<close>

theorem optimal_rewrites_tied:
  assumes "rules c \<noteq> []" and "cascade_rewrite_lattice (spec_lib D) c x it = Inr lat"
    and "within_bound D sm lat"
  shows "\<exists>opt every.
           optimal_rewrites (spec_lib D) c x it ot sm = Inr opt \<and>
           cascade_rewrites (spec_lib D) c x it ot sm = Inr every \<and>
           distinct opt \<and>
           set opt = {ostring p | p. p \<in> set lat \<and> weight p = min_weight lat} \<and>
           set opt \<subseteq> set every \<and>
           ((set every \<subseteq> set opt) = (\<forall>s \<in> set every. string_weight lat s = min_weight lat)) \<and>
           (\<not> (\<forall>s \<in> set every. string_weight lat s = min_weight lat) \<longrightarrow> set opt \<subset> set every)"
proof -
  have ne: "lat \<noteq> []" using assms(2) by (rule lattice_nonempty)
  let ?opt = "map ostring (optimal_dfa lat)" and ?every = "remdups (map ostring lat)"
  have so: "set ?opt = {ostring p | p. p \<in> set lat \<and> weight p = min_weight lat}"
    using ne by (rule set_optimal)
  have sub: "set ?opt \<subseteq> set ?every" unfolding so by auto
  have iff: "(set ?every \<subseteq> set ?opt) = (\<forall>s \<in> set ?every. string_weight lat s = min_weight lat)"
    unfolding so using all_share_iff[OF ne] by simp
  have strict: "\<not> (\<forall>s \<in> set ?every. string_weight lat s = min_weight lat) \<longrightarrow> set ?opt \<subset> set ?every"
    using sub iff by blast
  show ?thesis
    using optimal_spec[OF assms(2,3)] rewrites_spec[OF assms(2,3)] distinct_optimal[of lat]
      so sub iff strict
    by blast
qed

text \<open>
  In \<open>ex_prefer\<close> the string \<open>five\<close> has weight 1 (and a second path of weight 3) and
  the string \<open>5\<close> has weight 2: the optimal rewrites are a strict subset.
\<close>

theorem optimal_rewrites_tied_witness:
  "rules ex_prefer \<noteq> [] \<and>
   cascade_rewrite_lattice ex_lib ex_prefer (Str ''5'') None =
     Inr [Path ''five'' ''five'' 1, Path ''5'' ''5'' 2, Path ''five'' ''five'' 3] \<and>
   within_bound ex_limits 4 [Path ''five'' ''five'' 1, Path ''5'' ''5'' 2, Path ''five'' ''five'' 3] \<and>
   optimal_rewrites ex_lib ex_prefer (Str ''5'') None None 4 = Inr [''five''] \<and>
   cascade_rewrites ex_lib ex_prefer (Str ''5'') None None 4 = Inr [''5'', ''five''] \<and>
   (\<exists>opt every.
      optimal_rewrites ex_lib ex_prefer (Str ''5'') None None 4 = Inr opt \<and>
      cascade_rewrites ex_lib ex_prefer (Str ''5'') None None 4 = Inr every \<and>
      set opt \<subset> set every)"
proof -
  let ?lat = "[Path ''five'' ''five'' 1, Path ''5'' ''5'' 2, Path ''five'' ''five'' 3]"
  note l = ex_prefer_lattice[unfolded ex_lib_def]
  note w = ex_within_bound(2)
  have h: "rules ex_prefer \<noteq> []" by (simp add: ex_prefer_def)
  have o: "optimal_rewrites ex_lib ex_prefer (Str ''5'') None None 4 = Inr [''five'']"
    unfolding ex_lib_def optimal_spec[OF l w]
    by (simp add: optimal_dfa_def ex_determinize min_weight_def)
  have r: "cascade_rewrites ex_lib ex_prefer (Str ''5'') None None 4 = Inr [''5'', ''five'']"
    unfolding ex_lib_def rewrites_spec[OF l w]
    by simp
  have n: "string_weight ?lat ''5'' \<noteq> min_weight ?lat"
    by (simp add: string_weight_def paths_of_def min_weight_def)
  from optimal_rewrites_tied[OF h l w, of None, folded ex_lib_def]
  obtain opt every where e:
    "optimal_rewrites ex_lib ex_prefer (Str ''5'') None None 4 = Inr opt"
    "cascade_rewrites ex_lib ex_prefer (Str ''5'') None None 4 = Inr every"
    "\<not> (\<forall>s \<in> set every. string_weight ?lat s = min_weight ?lat) \<longrightarrow> set opt \<subset> set every"
    by blast
  from e(2) r have ev: "every = [''5'', ''five'']" by simp
  have "''5'' \<in> set every" unfolding ev by simp
  with n e(3) have "set opt \<subset> set every" by blast
  with e(1,2) have "\<exists>opt every.
      optimal_rewrites ex_lib ex_prefer (Str ''5'') None None 4 = Inr opt \<and>
      cascade_rewrites ex_lib ex_prefer (Str ''5'') None None 4 = Inr every \<and>
      set opt \<subset> set every"
    by blast
  with h ex_prefer_lattice w o r show ?thesis by blast
qed

text \<open>
  Claim C8 as stated asks only that the first rule accept the input, at any state
  multiplier. In \<open>ex_stuck\<close> the first rule accepts \<open>Five\<close> and the second rule
  accepts nothing of what the first one writes for it: \<^verbatim>\<open>optimal_rewrites\<close> returns
  no list, it raises the composition failure. In \<open>ex_prefer\<close> the lattice is built
  and \<open>five\<close> has the lowest weight, yet beyond the state bound (multiplier
  \<open>- 1000\<close>) the best-effort result keeps no path and \<^verbatim>\<open>optimal_rewrites\<close> returns
  the empty list.
\<close>

theorem optimal_rewrites_late_failure_counterexample:
  "rules ex_stuck \<noteq> [] \<and>
   rewrite_lattice ex_lib (Str ''Five'') (hd (rules ex_stuck)) None =
     Inr [Path ''five'' ''five'' 0] \<and>
   optimal_rewrites ex_lib ex_stuck (Str ''Five'') None None 4 =
     Inl (LibError CompositionFailure) \<and>
   rules ex_prefer \<noteq> [] \<and>
   cascade_rewrite_lattice ex_lib ex_prefer (Str ''5'') None =
     Inr [Path ''five'' ''five'' 1, Path ''5'' ''5'' 2, Path ''five'' ''five'' 3] \<and>
   optimal_rewrites ex_lib ex_prefer (Str ''5'') None None (- 1000) = Inr []"
proof -
  have "rewrite_lattice ex_lib (Str ''Five'') (hd (rules ex_stuck)) None =
     Inr [Path ''five'' ''five'' 0]"
    by (simp add: ex_lib_def ex_stuck_def spec_lib_simps spec_rewrite_lattice_def to_fst_def
        compose_paths_def)
  moreover have "optimal_rewrites ex_lib ex_stuck (Str ''Five'') None None 4 =
     Inl (LibError CompositionFailure)"
    by (rule lattice_failure(6)[OF ex_stuck_lattice])
  moreover have "rules ex_stuck \<noteq> []" by (simp add: ex_stuck_def)
  moreover have "rules ex_prefer \<noteq> []" by (simp add: ex_prefer_def)
  moreover have "optimal_rewrites ex_lib ex_prefer (Str ''5'') None None (- 1000) = Inr []"
    unfolding ex_lib_def
    by (simp add: optimal_rewrites_def ex_prefer_lattice[unfolded ex_lib_def] and_then_def
        lift_lib_def spec_lib_simps ex_degraded spec_lattice_to_strings_def)
  ultimately show ?thesis using ex_prefer_lattice by blast
qed

text \<open>
  Claim C1, amended. For every cascade and input on which the rewrite lattice is
  built and determinizes within the state bound of the state multiplier,
  \<^verbatim>\<open>one_top_rewrite\<close> raises the ambiguity error exactly when two distinct output
  strings are each written by a path of the lowest weight of the lattice; otherwise it
  returns a string, the one \<^verbatim>\<open>top_rewrite\<close> returns.
\<close>

theorem one_top_rewrite_ambiguity:
  assumes "cascade_rewrite_lattice (spec_lib D) c x it = Inr lat" and "within_bound D sm lat"
  shows "(one_top_rewrite (spec_lib D) c x it ot sm = Inl (LibError AmbiguousResult))
           = tied_at_top lat
       \<and> (\<not> tied_at_top lat \<longrightarrow>
            (\<exists>s. one_top_rewrite (spec_lib D) c x it ot sm = Inr s \<and>
                 top_rewrite (spec_lib D) c x it ot = Inr s))"
proof -
  have ne: "lat \<noteq> []" using assms(1) by (rule lattice_nonempty)
  let ?B = "{ostring p | p. p \<in> set lat \<and> weight p = min_weight lat}"
  have B: "set (map ostring (optimal_dfa lat)) = ?B" using ne by (rule set_optimal)
  have d: "distinct (map ostring (optimal_dfa lat))" by (rule distinct_optimal)
  have n: "optimal_dfa lat \<noteq> []" using ne by (rule optimal_dfa_nonempty)
  note one = one_top_spec[OF assms, of ot]
  from top_spec[OF assms(1), of ot] obtain p where
    p: "p \<in> set lat" "weight p = min_weight lat"
       "top_rewrite (spec_lib D) c x it ot = Inr (ostring p)"
    by blast
  then have pB: "ostring p \<in> ?B" by blast
  show ?thesis
  proof (cases "optimal_dfa lat")
    case Nil
    with n show ?thesis by simp
  next
    case (Cons a rest)
    show ?thesis
    proof (cases rest)
      case Nil
      with Cons B have "?B = {ostring a}" by simp
      then have "\<not> tied_at_top lat" "ostring p = ostring a" using pB unfolding tied_iff by auto
      then show ?thesis using one Cons Nil p(3) by simp
    next
      case (Cons b rest')
      with \<open>optimal_dfa lat = a # rest\<close> d B
      have "ostring a \<noteq> ostring b" "ostring a \<in> ?B" "ostring b \<in> ?B" by auto
      then have "tied_at_top lat" unfolding tied_iff by blast
      then show ?thesis using one Cons \<open>optimal_dfa lat = a # rest\<close> by simp
    qed
  qed
qed

text \<open>
  \<open>ex_prefer\<close> has one best string, which both operations return; \<open>ex_cascade\<close>
  is the specification's scenario of a tie.
\<close>

theorem one_top_rewrite_ambiguity_witness:
  "cascade_rewrite_lattice ex_lib ex_prefer (Str ''5'') None =
     Inr [Path ''five'' ''five'' 1, Path ''5'' ''5'' 2, Path ''five'' ''five'' 3] \<and>
   within_bound ex_limits 4 [Path ''five'' ''five'' 1, Path ''5'' ''5'' 2, Path ''five'' ''five'' 3] \<and>
   \<not> tied_at_top [Path ''five'' ''five'' 1, Path ''5'' ''5'' 2, Path ''five'' ''five'' 3] \<and>
   one_top_rewrite ex_lib ex_prefer (Str ''5'') None None 4 = Inr ''five'' \<and>
   top_rewrite ex_lib ex_prefer (Str ''5'') None None = Inr ''five'' \<and>
   cascade_rewrite_lattice ex_lib ex_cascade (Str ''5'') None =
     Inr [Path ''five'' ''five'' 1, Path ''5'' ''5'' 1] \<and>
   within_bound ex_limits 4 [Path ''five'' ''five'' 1, Path ''5'' ''5'' 1] \<and>
   tied_at_top [Path ''five'' ''five'' 1, Path ''5'' ''5'' 1] \<and>
   one_top_rewrite ex_lib ex_cascade (Str ''5'') None None 4 = Inl (LibError AmbiguousResult)"
proof -
  let ?l1 = "[Path ''five'' ''five'' 1, Path ''5'' ''5'' 2, Path ''five'' ''five'' 3]"
  let ?l2 = "[Path ''five'' ''five'' 1, Path ''5'' ''5'' 1]"
  have n1: "\<not> tied_at_top ?l1" by (simp add: tied_at_top_def ex_min_weights)
  have t2: "tied_at_top ?l2" by (simp add: tied_at_top_def ex_min_weights)
  have t: "top_rewrite ex_lib ex_prefer (Str ''5'') None None = Inr ''five''"
    by (simp add: top_rewrite_def ex_prefer_lattice[unfolded ex_lib_def] and_then_def lift_lib_def
        ex_lib_def spec_lib_simps spec_lattice_to_top_string_def ex_min_weights)
  from one_top_rewrite_ambiguity[OF ex_prefer_lattice[unfolded ex_lib_def] ex_within_bound(2),
      of None, folded ex_lib_def] n1
  obtain s where s: "one_top_rewrite ex_lib ex_prefer (Str ''5'') None None 4 = Inr s"
    "top_rewrite ex_lib ex_prefer (Str ''5'') None None = Inr s"
    by blast
  from s(2) t have "s = ''five''" by simp
  with s(1) have a: "one_top_rewrite ex_lib ex_prefer (Str ''5'') None None 4 = Inr ''five''"
    by simp
  from one_top_rewrite_ambiguity[OF ex_cascade_lattice[unfolded ex_lib_def] ex_within_bound(1),
      of None, folded ex_lib_def] t2
  have b: "one_top_rewrite ex_lib ex_cascade (Str ''5'') None None 4 =
     Inl (LibError AmbiguousResult)"
    by blast
  from ex_prefer_lattice ex_within_bound(2) n1 a t ex_cascade_lattice ex_within_bound(1) t2 b
  show ?thesis by blast
qed

text \<open>
  Claim C1 as stated covers every cascade, every input and every state multiplier. On
  an input the first rule does not accept, and on a cascade configured with no rule,
  there is no lattice and so no tie, yet \<^verbatim>\<open>one_top_rewrite\<close> does not succeed: it
  raises the error of the lattice builder, as \<^verbatim>\<open>top_rewrite\<close> does. And with the
  lattice built and no tie, beyond the state bound (multiplier \<open>- 1000\<close>) the
  best-effort result keeps no path: \<^verbatim>\<open>one_top_rewrite\<close> returns the empty string
  where \<^verbatim>\<open>top_rewrite\<close> returns \<open>five\<close>.
\<close>

theorem one_top_rewrite_unbuilt_counterexample:
  "cascade_rewrite_lattice ex_lib ex_cascade (Str ''7'') None = Inl (LibError CompositionFailure) \<and>
   one_top_rewrite ex_lib ex_cascade (Str ''7'') None None 4 = Inl (LibError CompositionFailure) \<and>
   top_rewrite ex_lib ex_cascade (Str ''7'') None None = Inl (LibError CompositionFailure) \<and>
   one_top_rewrite ex_lib (snd (set_rules ex_lib ex_cascade [])) (Str ''5'') None None 4 =
     Inl (Error ''No rules requested'') \<and>
   cascade_rewrite_lattice ex_lib ex_prefer (Str ''5'') None =
     Inr [Path ''five'' ''five'' 1, Path ''5'' ''5'' 2, Path ''five'' ''five'' 3] \<and>
   \<not> tied_at_top [Path ''five'' ''five'' 1, Path ''5'' ''5'' 2, Path ''five'' ''five'' 3] \<and>
   one_top_rewrite ex_lib ex_prefer (Str ''5'') None None (- 1000) = Inr [] \<and>
   top_rewrite ex_lib ex_prefer (Str ''5'') None None = Inr ''five''"
proof -
  have a: "one_top_rewrite ex_lib (snd (set_rules ex_lib ex_cascade [])) (Str ''5'') None None 4 =
     Inl (Error ''No rules requested'')"
    by (simp add: set_rules_def one_top_rewrite_def cascade_rewrite_lattice_def and_then_def)
  have n1: "\<not> tied_at_top [Path ''five'' ''five'' 1, Path ''5'' ''5'' 2, Path ''five'' ''five'' 3]"
    by (simp add: tied_at_top_def ex_min_weights)
  have t: "top_rewrite ex_lib ex_prefer (Str ''5'') None None = Inr ''five''"
    by (simp add: top_rewrite_def ex_prefer_lattice[unfolded ex_lib_def] and_then_def lift_lib_def
        ex_lib_def spec_lib_simps spec_lattice_to_top_string_def ex_min_weights)
  have o: "one_top_rewrite ex_lib ex_prefer (Str ''5'') None None (- 1000) = Inr []"
    unfolding ex_lib_def
    by (simp add: one_top_rewrite_def ex_prefer_lattice[unfolded ex_lib_def] and_then_def
        lift_lib_def spec_lib_simps ex_degraded spec_lattice_to_one_top_string_def)
  from a n1 t o ex_prefer_lattice ex_cascade_unaccepted
    lattice_failure(4,5)[OF ex_cascade_unaccepted]
  show ?thesis by blast
qed

end
